theory Spec2Isabelle
  imports Complex_Main "HOL-Library.Sublist" "HOL-Library.Char_ord" "HOL-Library.List_Lexorder"
    "HOL-Library.Multiset"
begin

section \<open>Data model\<close>

text \<open>
  The records of \<^verbatim>\<open>app/lib/types.ts\<close> and the two filter interfaces of the route
  \<^verbatim>\<open>app/routes/_index.tsx\<close>.
  Strings are HOL strings, compared lexicographically by character code as the default
  \<^verbatim>\<open>Array.prototype.sort\<close> does. A rating is a real number: the dataset is read from
  JSON, which has no \<^verbatim>\<open>NaN\<close>. Optional fields (\<^verbatim>\<open>topicTags?\<close>, \<^verbatim>\<open>subtags?\<close>,
  \<^verbatim>\<open>problemDetails?\<close>) are \<open>option\<close>s. Fields of the source records that no handler of the
  route reads (slugs, contest ids, ...) are left out. Where two interfaces of the source
  share a field name, the later record carries a prefix.
\<close>

record TopicTag =
  name :: string
  subtags :: "string list option"

record ProblemDetails =
  difficulty :: string

record LeetCodeProblem =
  Rating :: real
  ID :: int
  Title :: string
  topicTags :: "TopicTag list option"
  problemDetails :: "ProblemDetails option"

text \<open>
  A JavaScript number that may be \<^verbatim>\<open>NaN\<close>: the rating bounds of the applied filters come
  out of \<^verbatim>\<open>parseInt\<close>. Every comparison with \<^verbatim>\<open>NaN\<close> is false.
\<close>

datatype jsnum = NaN | Num real

fun js_gt :: "jsnum \<Rightarrow> jsnum \<Rightarrow> bool" where
  "js_gt (Num a) (Num b) = (a > b)"
| "js_gt _ _ = False"

fun js_lt :: "jsnum \<Rightarrow> jsnum \<Rightarrow> bool" where
  "js_lt (Num a) (Num b) = (a < b)"
| "js_lt _ _ = False"

fun js_ge :: "jsnum \<Rightarrow> jsnum \<Rightarrow> bool" where
  "js_ge (Num a) (Num b) = (a \<ge> b)"
| "js_ge _ _ = False"

fun js_le :: "jsnum \<Rightarrow> jsnum \<Rightarrow> bool" where
  "js_le (Num a) (Num b) = (a \<le> b)"
| "js_le _ _ = False"

text \<open>
  A JavaScript \<^verbatim>\<open>Set\<close> is its list of members in insertion order.
\<close>

type_synonym 'a JSSet = "'a list"

definition set_has :: "'a \<Rightarrow> 'a JSSet \<Rightarrow> bool" where
  "set_has x s = (x \<in> set s)"

definition set_add :: "'a \<Rightarrow> 'a JSSet \<Rightarrow> 'a JSSet" where
  "set_add x s = (if set_has x s then s else s @ [x])"

definition set_delete :: "'a \<Rightarrow> 'a JSSet \<Rightarrow> 'a JSSet" where
  "set_delete x s = filter (\<lambda>y. y \<noteq> x) s"

definition set_size :: "'a JSSet \<Rightarrow> nat" where
  "set_size s = length s"

definition set_new :: "'a list \<Rightarrow> 'a JSSet" where
  "set_new xs = fold set_add xs []"

definition array_includes :: "'a list \<Rightarrow> 'a \<Rightarrow> bool" where
  "array_includes xs x = (x \<in> set xs)"

record AppliedFilters =
  searchTerm :: string
  applied_difficulty :: string
  tags :: "string JSSet"
  applied_subtags :: "string JSSet"
  ratingMin :: jsnum
  ratingMax :: jsnum
  sortBy :: string

record PendingFilters =
  pending_searchTerm :: string
  pending_difficulty :: string
  selectedTags :: "string JSSet"
  selectedSubtags :: "string JSSet"
  pending_ratingMin :: string
  pending_ratingMax :: string
  pending_sortBy :: string

section \<open>Facet extraction\<close>

text \<open>\<^verbatim>\<open>computedData.allTags\<close>: every tag name of the dataset, sorted.\<close>

definition allTags :: "LeetCodeProblem list \<Rightarrow> string list" where
  "allTags problems =
     (let allTagsSet =
            fold (\<lambda>problem acc.
                    case topicTags problem of
                      None \<Rightarrow> acc
                    | Some ts \<Rightarrow> fold (\<lambda>tag acc'. set_add (name tag) acc') ts acc)
                 problems []
      in sort allTagsSet)"

text \<open>\<^verbatim>\<open>availableSubtags\<close>: the subtags offered for the pending tag selection.\<close>

definition availableSubtags :: "LeetCodeProblem list \<Rightarrow> PendingFilters \<Rightarrow> string list" where
  "availableSubtags problems pendingFilters =
     (if set_size (selectedTags pendingFilters) = 0 then []
      else
        let selectedTagsArray = selectedTags pendingFilters;
            subtagsSet =
              fold (\<lambda>problem acc.
                      case topicTags problem of
                        None \<Rightarrow> acc
                      | Some ts \<Rightarrow>
                          fold (\<lambda>tag acc'.
                                  if array_includes selectedTagsArray (name tag) then
                                    (case subtags tag of
                                       None \<Rightarrow> acc'
                                     | Some ss \<Rightarrow> fold set_add ss acc')
                                  else acc')
                               ts acc)
                   problems []
        in sort subtagsSet)"

section \<open>Editing the pending tag selection\<close>

text \<open>
  \<^verbatim>\<open>toggleTag\<close>: a selected tag is deselected and the subtags listed under it are deleted
  from the subtag selection; an unselected tag is selected.
\<close>

definition toggleTag :: "LeetCodeProblem list \<Rightarrow> string \<Rightarrow> PendingFilters \<Rightarrow> PendingFilters" where
  "toggleTag problems tagName prev =
     (let newSelectedTags = set_new (selectedTags prev);
          newSelectedSubtags = set_new (selectedSubtags prev)
      in if set_has tagName newSelectedTags then
           prev\<lparr>selectedTags := set_delete tagName newSelectedTags,
                selectedSubtags :=
                  fold (\<lambda>problem acc.
                          case topicTags problem of
                            None \<Rightarrow> acc
                          | Some ts \<Rightarrow>
                              (case find (\<lambda>t. name t = tagName) ts of
                                 None \<Rightarrow> acc
                               | Some tag \<Rightarrow>
                                   (case subtags tag of
                                      None \<Rightarrow> acc
                                    | Some ss \<Rightarrow> fold set_delete ss acc)))
                       problems newSelectedSubtags\<rparr>
         else
           prev\<lparr>selectedTags := set_add tagName newSelectedTags,
                selectedSubtags := newSelectedSubtags\<rparr>)"

definition toggleSubtag :: "string \<Rightarrow> PendingFilters \<Rightarrow> PendingFilters" where
  "toggleSubtag subtagName prev =
     (let newSelectedSubtags = set_new (selectedSubtags prev)
      in if set_has subtagName newSelectedSubtags
         then prev\<lparr>selectedSubtags := set_delete subtagName newSelectedSubtags\<rparr>
         else prev\<lparr>selectedSubtags := set_add subtagName newSelectedSubtags\<rparr>)"

section \<open>Strings\<close>

text \<open>
  A character is a code unit in the range 0 to 255. On that range
  \<^verbatim>\<open>String.prototype.toLowerCase\<close> moves the letters \<^verbatim>\<open>A\<close> to \<^verbatim>\<open>Z\<close> and the capital
  letters U+00C0 to U+00DE, without the multiplication sign U+00D7, up by 32 and leaves
  every other character as it is.
\<close>

definition toLowerCaseChar :: "char \<Rightarrow> char" where
  "toLowerCaseChar c =
     (if (CHR ''A'' \<le> c \<and> c \<le> CHR ''Z'') \<or>
         (CHR 0xC0 \<le> c \<and> c \<le> CHR 0xDE \<and> c \<noteq> CHR 0xD7)
      then char_of (of_char c + (32::nat)) else c)"

definition toLowerCase :: "string \<Rightarrow> string" where
  "toLowerCase s = map toLowerCaseChar s"

text \<open>\<^verbatim>\<open>s.includes(t)\<close>: \<open>t\<close> occurs in \<open>s\<close> as a contiguous run of characters.\<close>

fun string_includes :: "string \<Rightarrow> string \<Rightarrow> bool" where
  "string_includes [] t = (t = [])"
| "string_includes (c # s) t = (prefix t (c # s) \<or> string_includes s t)"

text \<open>\<^verbatim>\<open>Number.prototype.toString\<close> of an integer: its decimal digits, with a sign.\<close>

definition digit_char :: "nat \<Rightarrow> char" where
  "digit_char d = char_of (48 + d)"

function nat_toString :: "nat \<Rightarrow> string" where
  "nat_toString n =
     (if n < 10 then [digit_char n] else nat_toString (n div 10) @ [digit_char (n mod 10)])"
  by pat_completeness auto
termination
  by (relation "measure id") auto

declare nat_toString.simps [simp del]

definition int_toString :: "int \<Rightarrow> string" where
  "int_toString i = (if i < 0 then CHR ''-'' # nat_toString (nat (- i)) else nat_toString (nat i))"

text \<open>
  \<^verbatim>\<open>parseInt(s)\<close> with no radix: leading white space is skipped, a sign is read, a
  \<^verbatim>\<open>0x\<close> prefix selects radix 16, and the longest run of digits of the radix is the value.
  With no digit the result is \<^verbatim>\<open>NaN\<close>. The white space of JavaScript in the range 0 to
  255 is the tab, the line feed, the vertical tab, the form feed, the carriage return, the
  space and the no-break space U+00A0.
\<close>

definition isWhiteSpace :: "char \<Rightarrow> bool" where
  "isWhiteSpace c =
     (c \<in> set [CHR 0x09, CHR 0x0A, CHR 0x0B, CHR 0x0C, CHR 0x0D, CHR 0x20, CHR 0xA0])"

definition digitValue :: "char \<Rightarrow> nat option" where
  "digitValue c =
     (if CHR ''0'' \<le> c \<and> c \<le> CHR ''9'' then Some (of_char c - 48)
      else if CHR ''a'' \<le> c \<and> c \<le> CHR ''z'' then Some (of_char c - 87)
      else if CHR ''A'' \<le> c \<and> c \<le> CHR ''Z'' then Some (of_char c - 55)
      else None)"

definition isDigitOf :: "nat \<Rightarrow> char \<Rightarrow> bool" where
  "isDigitOf radix c = (case digitValue c of None \<Rightarrow> False | Some d \<Rightarrow> d < radix)"

definition digitsValue :: "nat \<Rightarrow> string \<Rightarrow> nat" where
  "digitsValue radix ds = foldl (\<lambda>acc c. acc * radix + the (digitValue c)) 0 ds"

definition parseInt :: "string \<Rightarrow> jsnum" where
  "parseInt s =
     (let s1 = dropWhile isWhiteSpace s;
          (sign, s2) = (case s1 of
                          c # r \<Rightarrow> if c = CHR ''-'' then (- 1 :: int, r)
                                   else if c = CHR ''+'' then (1, r) else (1, s1)
                        | [] \<Rightarrow> (1, s1));
          (radix, s3) = (if prefix ''0x'' s2 \<or> prefix ''0X'' s2 then (16, drop 2 s2) else (10, s2));
          ds = takeWhile (isDigitOf radix) s3
      in if ds = [] then NaN else Num (of_int (sign * int (digitsValue radix ds))))"

section \<open>Arrays in the store\<close>

text \<open>
  The dataset array is shared by reference, \<^verbatim>\<open>filter\<close> and the spread allocate a new array
  and \<^verbatim>\<open>sort\<close> reorders its receiver in place, so arrays live in a store and are handled by
  reference.
\<close>

type_synonym ref = nat

record heap =
  arrays :: "ref \<Rightarrow> LeetCodeProblem list"
  fresh :: ref

definition contents :: "ref \<times> heap \<Rightarrow> LeetCodeProblem list" where
  "contents rh = arrays (snd rh) (fst rh)"

definition array_alloc :: "LeetCodeProblem list \<Rightarrow> heap \<Rightarrow> ref \<times> heap" where
  "array_alloc xs h = (fresh h, h\<lparr>arrays := (arrays h)(fresh h := xs), fresh := Suc (fresh h)\<rparr>)"

definition array_filter :: "(LeetCodeProblem \<Rightarrow> bool) \<Rightarrow> ref \<times> heap \<Rightarrow> ref \<times> heap" where
  "array_filter P rh = array_alloc (filter P (contents rh)) (snd rh)"

definition array_spread :: "ref \<times> heap \<Rightarrow> ref \<times> heap" where
  "array_spread rh = array_alloc (contents rh) (snd rh)"

text \<open>
  \<^verbatim>\<open>Array.prototype.sort\<close> is stable: with a consistent comparator the elements come out
  in ascending order and elements that compare equal keep their order. Inserting each
  element, from the right end, before the first one that is not smaller computes that
  order. With an inconsistent comparator JavaScript leaves the order to the implementation;
  the model then still returns a permutation.
\<close>

fun sort_insert :: "('a \<Rightarrow> 'a \<Rightarrow> real) \<Rightarrow> 'a \<Rightarrow> 'a list \<Rightarrow> 'a list" where
  "sort_insert cmp x [] = [x]"
| "sort_insert cmp x (y # ys) =
     (if cmp x y \<le> 0 then x # y # ys else y # sort_insert cmp x ys)"

definition sorted_by :: "('a \<Rightarrow> 'a \<Rightarrow> real) \<Rightarrow> 'a list \<Rightarrow> 'a list" where
  "sorted_by cmp xs = foldr (sort_insert cmp) xs []"

definition array_sort :: "(LeetCodeProblem \<Rightarrow> LeetCodeProblem \<Rightarrow> real) \<Rightarrow> ref \<times> heap \<Rightarrow> ref \<times> heap" where
  "array_sort cmp rh =
     (fst rh, (snd rh)\<lparr>arrays := (arrays (snd rh))(fst rh := sorted_by cmp (contents rh))\<rparr>)"

section \<open>The query: filteredAndSortedProblems\<close>

text \<open>Each stage is one \<^verbatim>\<open>if\<close> block of the source, in the source's order.\<close>

definition searchStage :: "AppliedFilters \<Rightarrow> ref \<times> heap \<Rightarrow> ref \<times> heap" where
  "searchStage appliedFilters filtered =
     (if searchTerm appliedFilters \<noteq> [] then
        (let searchLower = toLowerCase (searchTerm appliedFilters)
         in array_filter (\<lambda>problem.
              string_includes (toLowerCase (Title problem)) searchLower \<or>
              string_includes (int_toString (ID problem)) searchLower) filtered)
      else filtered)"

definition effectiveDifficulty :: "LeetCodeProblem \<Rightarrow> string" where
  "effectiveDifficulty problem =
     (case problemDetails problem of
        None \<Rightarrow> ''Hard''
      | Some d \<Rightarrow> if difficulty d = [] then ''Hard'' else difficulty d)"

definition difficultyStage :: "AppliedFilters \<Rightarrow> ref \<times> heap \<Rightarrow> ref \<times> heap" where
  "difficultyStage appliedFilters filtered =
     (if applied_difficulty appliedFilters \<noteq> ''all'' then
        array_filter (\<lambda>problem. effectiveDifficulty problem = applied_difficulty appliedFilters)
          filtered
      else filtered)"

definition tagStage :: "AppliedFilters \<Rightarrow> ref \<times> heap \<Rightarrow> ref \<times> heap" where
  "tagStage appliedFilters filtered =
     (if set_size (tags appliedFilters) > 0 then
        (let tagsArray = tags appliedFilters
         in array_filter (\<lambda>problem.
              case topicTags problem of
                None \<Rightarrow> False
              | Some ts \<Rightarrow> list_ex (\<lambda>tag. array_includes tagsArray (name tag)) ts) filtered)
      else filtered)"

definition subtagStage :: "AppliedFilters \<Rightarrow> ref \<times> heap \<Rightarrow> ref \<times> heap" where
  "subtagStage appliedFilters filtered =
     (if set_size (applied_subtags appliedFilters) > 0 then
        (let subtagsArray = applied_subtags appliedFilters
         in array_filter (\<lambda>problem.
              case topicTags problem of
                None \<Rightarrow> False
              | Some ts \<Rightarrow>
                  list_ex (\<lambda>tag.
                    case subtags tag of
                      None \<Rightarrow> False
                    | Some ss \<Rightarrow> list_ex (\<lambda>subtag. array_includes subtagsArray subtag) ss) ts)
            filtered)
      else filtered)"

definition ratingStage :: "AppliedFilters \<Rightarrow> ref \<times> heap \<Rightarrow> ref \<times> heap" where
  "ratingStage appliedFilters filtered =
     (if js_gt (ratingMin appliedFilters) (Num 0) \<or> js_lt (ratingMax appliedFilters) (Num 4000) then
        array_filter (\<lambda>problem.
          js_ge (Num (Rating problem)) (ratingMin appliedFilters) \<and>
          js_le (Num (Rating problem)) (ratingMax appliedFilters)) filtered
      else filtered)"

text \<open>
  The comparator of the sort. \<^verbatim>\<open>localeCompare\<close> depends on the locale of the browser and is
  a parameter.
\<close>

definition compareProblems ::
  "(string \<Rightarrow> string \<Rightarrow> int) \<Rightarrow> string \<Rightarrow> LeetCodeProblem \<Rightarrow> LeetCodeProblem \<Rightarrow> real" where
  "compareProblems localeCompare key a b =
     (if key = ''rating-desc'' then Rating b - Rating a
      else if key = ''rating-asc'' then Rating a - Rating b
      else if key = ''id-asc'' then of_int (ID a - ID b)
      else if key = ''id-desc'' then of_int (ID b - ID a)
      else if key = ''title-asc'' then of_int (localeCompare (Title a) (Title b))
      else if key = ''title-desc'' then of_int (localeCompare (Title b) (Title a))
      else Rating a - Rating b)"

definition filteredAndSortedProblems ::
  "(string \<Rightarrow> string \<Rightarrow> int) \<Rightarrow> AppliedFilters \<Rightarrow> ref \<times> heap \<Rightarrow> ref \<times> heap" where
  "filteredAndSortedProblems localeCompare appliedFilters problems =
     (let filtered = problems;
          filtered = searchStage appliedFilters filtered;
          filtered = difficultyStage appliedFilters filtered;
          filtered = tagStage appliedFilters filtered;
          filtered = subtagStage appliedFilters filtered;
          filtered = ratingStage appliedFilters filtered;
          filtered = array_sort (compareProblems localeCompare (sortBy appliedFilters)) filtered
      in array_spread filtered)"

text \<open>\<^verbatim>\<open>hasActiveFilters\<close>: some filter stage of the query fires.\<close>

definition hasActiveFilters :: "AppliedFilters \<Rightarrow> bool" where
  "hasActiveFilters af =
     (searchTerm af \<noteq> [] \<or>
      applied_difficulty af \<noteq> ''all'' \<or>
      set_size (tags af) > 0 \<or>
      set_size (applied_subtags af) > 0 \<or>
      js_gt (ratingMin af) (Num 0) \<or>
      js_lt (ratingMax af) (Num 4000))"

section \<open>Pagination\<close>

definition pageSize :: int where
  "pageSize = 50"

text \<open>\<^verbatim>\<open>Array.prototype.slice\<close>: a negative index counts from the end.\<close>

definition array_slice :: "int \<Rightarrow> int \<Rightarrow> 'a list \<Rightarrow> 'a list" where
  "array_slice start fin xs =
     (let len = int (length xs);
          k = (if start < 0 then max (len + start) 0 else min start len);
          final = (if fin < 0 then max (len + fin) 0 else min fin len)
      in take (nat (final - k)) (drop (nat k) xs))"

definition paginatedProblems :: "LeetCodeProblem list \<Rightarrow> int \<Rightarrow> LeetCodeProblem list" where
  "paginatedProblems filteredAndSorted currentPage =
     (let startIndex = (currentPage - 1) * pageSize
      in array_slice startIndex (startIndex + pageSize) filteredAndSorted)"

definition totalPages :: "LeetCodeProblem list \<Rightarrow> int" where
  "totalPages filteredAndSorted = \<lceil>real (length filteredAndSorted) / real_of_int pageSize\<rceil>"

section \<open>The component state and its handlers\<close>

text \<open>The initial values of the two \<^verbatim>\<open>useState\<close> filter objects.\<close>

definition defaultApplied :: AppliedFilters where
  "defaultApplied =
     \<lparr>searchTerm = [], applied_difficulty = ''all'', tags = [], applied_subtags = [],
      ratingMin = Num 0, ratingMax = Num 4000, sortBy = ''rating-asc''\<rparr>"

definition defaultPending :: PendingFilters where
  "defaultPending =
     \<lparr>pending_searchTerm = [], pending_difficulty = ''all'', selectedTags = [],
      selectedSubtags = [], pending_ratingMin = [], pending_ratingMax = [],
      pending_sortBy = ''rating-asc''\<rparr>"

text \<open>The object \<^verbatim>\<open>newFilters\<close> that \<^verbatim>\<open>applyFilters\<close> builds from the pending filters.\<close>

definition newFilters :: "PendingFilters \<Rightarrow> AppliedFilters" where
  "newFilters pendingFilters =
     \<lparr>searchTerm = pending_searchTerm pendingFilters,
      applied_difficulty = pending_difficulty pendingFilters,
      tags = set_new (selectedTags pendingFilters),
      applied_subtags = set_new (selectedSubtags pendingFilters),
      ratingMin = (if pending_ratingMin pendingFilters \<noteq> []
                   then parseInt (pending_ratingMin pendingFilters) else Num 0),
      ratingMax = (if pending_ratingMax pendingFilters \<noteq> []
                   then parseInt (pending_ratingMax pendingFilters) else Num 4000),
      sortBy = pending_sortBy pendingFilters\<rparr>"

text \<open>
  The state of the component: the two filter objects, the page number, the store that
  holds the dataset array, and the array that \<^verbatim>\<open>useMemo\<close> keeps for
  \<^verbatim>\<open>filteredAndSortedProblems\<close>. The memo is computed again exactly when a handler installs
  a new \<^verbatim>\<open>appliedFilters\<close> object.
\<close>

record State =
  appliedFilters :: AppliedFilters
  pendingFilters :: PendingFilters
  currentPage :: int
  store :: heap
  memoized :: ref

definition problems_ref :: ref where
  "problems_ref = 0"

definition initialStore :: "LeetCodeProblem list \<Rightarrow> heap" where
  "initialStore dataset = \<lparr>arrays = (\<lambda>_. [])(problems_ref := dataset), fresh = Suc problems_ref\<rparr>"

definition recompute :: "(string \<Rightarrow> string \<Rightarrow> int) \<Rightarrow> State \<Rightarrow> State" where
  "recompute localeCompare s =
     (let rh = filteredAndSortedProblems localeCompare (appliedFilters s) (problems_ref, store s)
      in s\<lparr>store := snd rh, memoized := fst rh\<rparr>)"

definition initialState :: "(string \<Rightarrow> string \<Rightarrow> int) \<Rightarrow> LeetCodeProblem list \<Rightarrow> State" where
  "initialState localeCompare dataset =
     recompute localeCompare
       \<lparr>appliedFilters = defaultApplied, pendingFilters = defaultPending, currentPage = 1,
        store = initialStore dataset, memoized = problems_ref\<rparr>"

definition totalPagesOf :: "State \<Rightarrow> int" where
  "totalPagesOf s = totalPages (arrays (store s) (memoized s))"

definition applyFilters :: "(string \<Rightarrow> string \<Rightarrow> int) \<Rightarrow> State \<Rightarrow> State" where
  "applyFilters localeCompare s =
     recompute localeCompare
       (s\<lparr>appliedFilters := newFilters (pendingFilters s), currentPage := 1\<rparr>)"

definition clearAllFilters :: "(string \<Rightarrow> string \<Rightarrow> int) \<Rightarrow> State \<Rightarrow> State" where
  "clearAllFilters localeCompare s =
     recompute localeCompare
       (s\<lparr>pendingFilters := defaultPending, appliedFilters := defaultApplied, currentPage := 1\<rparr>)"

definition removeAppliedFilter ::
  "(string \<Rightarrow> string \<Rightarrow> int) \<Rightarrow> string \<Rightarrow> string option \<Rightarrow> State \<Rightarrow> State" where
  "removeAppliedFilter localeCompare type v s =
     (let newApplied = appliedFilters s;
          newPending = pendingFilters s;
          hasValue = (case v of None \<Rightarrow> False | Some x \<Rightarrow> x \<noteq> []);
          (newApplied, newPending) =
            (if type = ''search'' then
               (newApplied\<lparr>searchTerm := []\<rparr>, newPending\<lparr>pending_searchTerm := []\<rparr>)
             else if type = ''difficulty'' then
               (newApplied\<lparr>applied_difficulty := ''all''\<rparr>,
                newPending\<lparr>pending_difficulty := ''all''\<rparr>)
             else if type = ''tag'' then
               (if hasValue then
                  (newApplied\<lparr>tags := set_new (set_delete (the v) (tags newApplied))\<rparr>,
                   newPending\<lparr>selectedTags :=
                                 set_new (set_delete (the v) (selectedTags newPending))\<rparr>)
                else (newApplied, newPending))
             else if type = ''subtag'' then
               (if hasValue then
                  (newApplied\<lparr>applied_subtags :=
                                 set_new (set_delete (the v) (applied_subtags newApplied))\<rparr>,
                   newPending\<lparr>selectedSubtags :=
                                 set_new (set_delete (the v) (selectedSubtags newPending))\<rparr>)
                else (newApplied, newPending))
             else if type = ''rating'' then
               (newApplied\<lparr>ratingMin := Num 0, ratingMax := Num 4000\<rparr>,
                newPending\<lparr>pending_ratingMin := [], pending_ratingMax := []\<rparr>)
             else (newApplied, newPending))
      in recompute localeCompare
           (s\<lparr>appliedFilters := newApplied, pendingFilters := newPending, currentPage := 1\<rparr>))"

definition previousPage :: "State \<Rightarrow> State" where
  "previousPage s = s\<lparr>currentPage := max 1 (currentPage s - 1)\<rparr>"

definition nextPage :: "State \<Rightarrow> State" where
  "nextPage s = s\<lparr>currentPage := min (totalPagesOf s) (currentPage s + 1)\<rparr>"

text \<open>
  The states the user can reach. The two page buttons are rendered only when
  \<^verbatim>\<open>totalPages > 1\<close>; the editing handlers change the pending filters only.
\<close>

inductive reachable :: "(string \<Rightarrow> string \<Rightarrow> int) \<Rightarrow> LeetCodeProblem list \<Rightarrow> State \<Rightarrow> bool"
  for localeCompare :: "string \<Rightarrow> string \<Rightarrow> int" and dataset :: "LeetCodeProblem list" where
  reach_initial: "reachable localeCompare dataset (initialState localeCompare dataset)"
| reach_apply:
    "reachable localeCompare dataset s \<Longrightarrow>
     reachable localeCompare dataset (applyFilters localeCompare s)"
| reach_clear:
    "reachable localeCompare dataset s \<Longrightarrow>
     reachable localeCompare dataset (clearAllFilters localeCompare s)"
| reach_remove:
    "reachable localeCompare dataset s \<Longrightarrow>
     reachable localeCompare dataset (removeAppliedFilter localeCompare type v s)"
| reach_previous:
    "reachable localeCompare dataset s \<Longrightarrow> totalPagesOf s > 1 \<Longrightarrow>
     reachable localeCompare dataset (previousPage s)"
| reach_next:
    "reachable localeCompare dataset s \<Longrightarrow> totalPagesOf s > 1 \<Longrightarrow>
     reachable localeCompare dataset (nextPage s)"
| reach_toggleTag:
    "reachable localeCompare dataset s \<Longrightarrow>
     reachable localeCompare dataset
       (s\<lparr>pendingFilters :=
            toggleTag (arrays (store s) problems_ref) tagName (pendingFilters s)\<rparr>)"
| reach_toggleSubtag:
    "reachable localeCompare dataset s \<Longrightarrow>
     reachable localeCompare dataset
       (s\<lparr>pendingFilters := toggleSubtag subtagName (pendingFilters s)\<rparr>)"
| reach_editSearchTerm:
    "reachable localeCompare dataset s \<Longrightarrow>
     reachable localeCompare dataset
       (s\<lparr>pendingFilters := (pendingFilters s)\<lparr>pending_searchTerm := x\<rparr>\<rparr>)"
| reach_editDifficulty:
    "reachable localeCompare dataset s \<Longrightarrow>
     reachable localeCompare dataset
       (s\<lparr>pendingFilters := (pendingFilters s)\<lparr>pending_difficulty := x\<rparr>\<rparr>)"
| reach_editSortBy:
    "reachable localeCompare dataset s \<Longrightarrow>
     reachable localeCompare dataset
       (s\<lparr>pendingFilters := (pendingFilters s)\<lparr>pending_sortBy := x\<rparr>\<rparr>)"
| reach_editRatingMin:
    "reachable localeCompare dataset s \<Longrightarrow>
     reachable localeCompare dataset
       (s\<lparr>pendingFilters := (pendingFilters s)\<lparr>pending_ratingMin := x\<rparr>\<rparr>)"
| reach_editRatingMax:
    "reachable localeCompare dataset s \<Longrightarrow>
     reachable localeCompare dataset
       (s\<lparr>pendingFilters := (pendingFilters s)\<lparr>pending_ratingMax := x\<rparr>\<rparr>)"

section \<open>Predicates used to state the properties\<close>

text \<open>The subtags that \<^verbatim>\<open>toggleTag\<close> finds under a tag name in one problem.\<close>

definition listedUnder :: "string \<Rightarrow> LeetCodeProblem \<Rightarrow> string set" where
  "listedUnder tagName problem =
     {s. \<exists>ts tag ss. topicTags problem = Some ts \<and> find (\<lambda>t. name t = tagName) ts = Some tag \<and>
           subtags tag = Some ss \<and> s \<in> set ss}"

text \<open>The subtags of one problem that sit under a tag of the selection.\<close>

definition subtagsUnderSelection :: "string list \<Rightarrow> LeetCodeProblem \<Rightarrow> string set" where
  "subtagsUnderSelection sel problem =
     {s. \<exists>ts tag ss. topicTags problem = Some ts \<and> tag \<in> set ts \<and> name tag \<in> set sel \<and>
           subtags tag = Some ss \<and> s \<in> set ss}"

definition hasSelectedTag :: "AppliedFilters \<Rightarrow> LeetCodeProblem \<Rightarrow> bool" where
  "hasSelectedTag af problem =
     (\<exists>ts tag. topicTags problem = Some ts \<and> tag \<in> set ts \<and> name tag \<in> set (tags af))"

definition hasSelectedSubtag :: "AppliedFilters \<Rightarrow> LeetCodeProblem \<Rightarrow> bool" where
  "hasSelectedSubtag af problem =
     (\<exists>ts tag ss sub. topicTags problem = Some ts \<and> tag \<in> set ts \<and> subtags tag = Some ss \<and>
        sub \<in> set ss \<and> sub \<in> set (applied_subtags af))"

text \<open>The conjunction of the five filter stages, each with the guard of its \<^verbatim>\<open>if\<close>.\<close>

definition matches :: "AppliedFilters \<Rightarrow> LeetCodeProblem \<Rightarrow> bool" where
  "matches af problem =
     ((searchTerm af = [] \<or>
       string_includes (toLowerCase (Title problem)) (toLowerCase (searchTerm af)) \<or>
       string_includes (int_toString (ID problem)) (toLowerCase (searchTerm af))) \<and>
      (applied_difficulty af = ''all'' \<or> effectiveDifficulty problem = applied_difficulty af) \<and>
      (tags af = [] \<or> hasSelectedTag af problem) \<and>
      (applied_subtags af = [] \<or> hasSelectedSubtag af problem) \<and>
      ((js_gt (ratingMin af) (Num 0) \<or> js_lt (ratingMax af) (Num 4000)) \<longrightarrow>
         js_ge (Num (Rating problem)) (ratingMin af) \<and>
         js_le (Num (Rating problem)) (ratingMax af)))"

text \<open>The characters of a decimal integer: a digit or the minus sign.\<close>

definition isIdChar :: "char \<Rightarrow> bool" where
  "isIdChar c = (c = CHR ''-'' \<or> (CHR ''0'' \<le> c \<and> c \<le> CHR ''9''))"

text \<open>
  Both the dataset array \<open>r0\<close> and the array in hand are allocated; and a step from one
  array in hand to the next that leaves the dataset array as it is.
\<close>

definition allocated :: "ref \<Rightarrow> ref \<times> heap \<Rightarrow> bool" where
  "allocated r0 rh = (r0 < fresh (snd rh) \<and> fst rh < fresh (snd rh))"

definition keeps :: "ref \<Rightarrow> ref \<times> heap \<Rightarrow> ref \<times> heap \<Rightarrow> bool" where
  "keeps r0 rh rh' =
     (arrays (snd rh') r0 = arrays (snd rh) r0 \<and> allocated r0 rh' \<and> (rh' = rh \<or> fst rh' \<noteq> r0))"

text \<open>
  The store and the memo agree with the dataset the component was started on: the dataset
  array holds the same problems, in some order, and the memo holds those that match the
  applied filters.
\<close>

definition consistent :: "LeetCodeProblem list \<Rightarrow> State \<Rightarrow> bool" where
  "consistent dataset s =
     (problems_ref < fresh (store s) \<and>
      mset (arrays (store s) problems_ref) = mset dataset \<and>
      mset (arrays (store s) (memoized s)) = filter_mset (matches (appliedFilters s)) (mset dataset))"

text \<open>The page number is 1 when there is no page, and a page that exists otherwise.\<close>

definition pageInRange :: "State \<Rightarrow> bool" where
  "pageInRange s =
     ((totalPagesOf s = 0 \<longrightarrow> currentPage s = 1) \<and>
      (0 < totalPagesOf s \<longrightarrow> 1 \<le> currentPage s \<and> currentPage s \<le> totalPagesOf s))"

section \<open>Example data\<close>

text \<open>One problem with the tags \<open>A\<close> (subtags \<open>x\<close>, \<open>y\<close>) and \<open>B\<close> (subtags \<open>y\<close>, \<open>z\<close>).\<close>

definition tagged_dataset :: "LeetCodeProblem list" where
  "tagged_dataset =
     [\<lparr>Rating = 1500, ID = 7, Title = ''Tagged'',
       topicTags = Some [\<lparr>name = ''A'', subtags = Some [''x'', ''y'']\<rparr>,
                         \<lparr>name = ''B'', subtags = Some [''y'', ''z'']\<rparr>],
       problemDetails = None\<rparr>]"

definition tagged_pending :: PendingFilters where
  "tagged_pending =
     defaultPending\<lparr>selectedTags := [''A'', ''B''], selectedSubtags := [''x'', ''y'', ''z'']\<rparr>"

text \<open>The three problems of the example scenario.\<close>

definition two_sum :: LeetCodeProblem where
  "two_sum =
     \<lparr>Rating = 1200, ID = 1, Title = ''Two Sum'',
      topicTags = Some [\<lparr>name = ''Array'', subtags = None\<rparr>],
      problemDetails = Some \<lparr>difficulty = ''Easy''\<rparr>\<rparr>"

definition add_problem :: LeetCodeProblem where
  "add_problem =
     \<lparr>Rating = 2200, ID = 2, Title = ''Add'', topicTags = Some [], problemDetails = None\<rparr>"

definition sum_tree :: LeetCodeProblem where
  "sum_tree =
     \<lparr>Rating = 1800, ID = 3, Title = ''Sum Tree'',
      topicTags = Some [\<lparr>name = ''Array'', subtags = Some [''Prefix Sum'']\<rparr>],
      problemDetails = Some \<lparr>difficulty = ''Medium''\<rparr>\<rparr>"

definition example_dataset :: "LeetCodeProblem list" where
  "example_dataset = [two_sum, add_problem, sum_tree]"

text \<open>Applied filters that select the tag \<open>B\<close> and the subtag \<open>x\<close> of the tag \<open>A\<close>.\<close>

definition cross_selection :: AppliedFilters where
  "cross_selection = defaultApplied\<lparr>tags := [''B''], applied_subtags := [''x'']\<rparr>"

text \<open>Applied filters with the rating bounds 1000 and 2000.\<close>

definition mid_range :: AppliedFilters where
  "mid_range = defaultApplied\<lparr>ratingMin := Num 1000, ratingMax := Num 2000\<rparr>"

text \<open>
  A problem whose title starts with the capital letter U+00C9, and a search term that
  starts with the small letter U+00E9.
\<close>

definition accented :: LeetCodeProblem where
  "accented =
     \<lparr>Rating = 1600, ID = 5,
      Title = [CHR 0xC9, CHR ''c'', CHR ''o'', CHR ''l'', CHR ''e''],
      topicTags = None, problemDetails = None\<rparr>"

definition accented_term :: string where
  "accented_term = [CHR 0xE9, CHR ''c'', CHR ''o'']"

text \<open>A problem rated above the default upper bound.\<close>

definition high_rated :: LeetCodeProblem where
  "high_rated =
     \<lparr>Rating = 6000, ID = 9, Title = ''Beyond'', topicTags = None, problemDetails = None\<rparr>"

text \<open>Pending filters whose lower rating bound is not a number.\<close>

definition unsaved_bounds :: PendingFilters where
  "unsaved_bounds = defaultPending\<lparr>pending_ratingMin := ''abc'', pending_ratingMax := ''3000''\<rparr>"

text \<open>A dataset of 120 problems.\<close>

definition many_problems :: "LeetCodeProblem list" where
  "many_problems = replicate 120 two_sum"

text \<open>A comparison by character codes, for the examples that need some \<^verbatim>\<open>localeCompare\<close>.\<close>

definition codeCompare :: "string \<Rightarrow> string \<Rightarrow> int" where
  "codeCompare a b = (if a < b then - 1 else if b < a then 1 else 0)"

section \<open>Sets as insertion-ordered lists\<close>

lemma set_set_add: "set (set_add x s) = insert x (set s)"
  by (auto simp: set_add_def set_has_def)

lemma distinct_set_add: "distinct s \<Longrightarrow> distinct (set_add x s)"
  by (simp add: set_add_def set_has_def)

lemma set_fold_set_add: "set (fold set_add xs s) = set xs \<union> set s"
  by (induction xs arbitrary: s) (auto simp: set_set_add)

lemma distinct_fold_set_add: "distinct s \<Longrightarrow> distinct (fold set_add xs s)"
  by (induction xs arbitrary: s) (auto simp: distinct_set_add)

lemma set_set_new: "set (set_new xs) = set xs"
  by (simp add: set_new_def set_fold_set_add)

lemma set_set_delete: "set (set_delete x s) = set s - {x}"
  by (auto simp: set_delete_def)

lemma set_fold_set_delete: "set (fold set_delete xs s) = set s - set xs"
  by (induction xs arbitrary: s) (auto simp: set_set_delete)

section \<open>Deselecting a tag\<close>

lemma set_fold_listedUnder:
  "set (fold (\<lambda>problem acc.
                case topicTags problem of
                  None \<Rightarrow> acc
                | Some ts \<Rightarrow>
                    (case find (\<lambda>t. name t = tagName) ts of
                       None \<Rightarrow> acc
                     | Some tag \<Rightarrow>
                         (case subtags tag of
                            None \<Rightarrow> acc
                          | Some ss \<Rightarrow> fold set_delete ss acc)))
             problems s)
   = set s - (\<Union>problem\<in>set problems. listedUnder tagName problem)"
  by (induction problems arbitrary: s)
     (auto simp: listedUnder_def set_fold_set_delete split: option.splits)

text \<open>
  Claim C1, as the code has it. Deselecting a selected tag with \<^verbatim>\<open>toggleTag\<close> removes the
  tag from the tag selection and removes from the subtag selection every subtag that some
  problem of the dataset lists under that tag (under the first tag of that name in the
  problem), whether or not the subtag also belongs to another tag. Every other selected
  subtag stays.
\<close>

theorem toggleTag_deselect_purges_listed:
  assumes "tagName \<in> set (selectedTags prev)"
  shows "set (selectedTags (toggleTag problems tagName prev)) = set (selectedTags prev) - {tagName}
       \<and> set (selectedSubtags (toggleTag problems tagName prev)) =
           set (selectedSubtags prev) - (\<Union>problem\<in>set problems. listedUnder tagName problem)"
  using assms
  by (simp add: toggleTag_def Let_def set_has_def set_set_new set_set_delete set_fold_listedUnder)

theorem toggleTag_deselect_purges_listed_witness:
  "''A'' \<in> set (selectedTags tagged_pending) \<and>
   set (selectedTags (toggleTag tagged_dataset ''A'' tagged_pending)) =
     set (selectedTags tagged_pending) - {''A''} \<and>
   set (selectedSubtags (toggleTag tagged_dataset ''A'' tagged_pending)) =
     set (selectedSubtags tagged_pending) -
       (\<Union>problem\<in>set tagged_dataset. listedUnder ''A'' problem)"
proof -
  have h: "''A'' \<in> set (selectedTags tagged_pending)"
    by (simp add: tagged_pending_def)
  show ?thesis
    using h toggleTag_deselect_purges_listed [OF h, of tagged_dataset] by simp
qed

text \<open>
  Claim C1 as the specification words it fails: with \<open>A\<close> and \<open>B\<close> selected and the
  subtags \<open>x\<close>, \<open>y\<close>, \<open>z\<close> selected, deselecting \<open>A\<close> leaves only \<open>z\<close>. The subtag \<open>y\<close> is
  dropped although the selected tag \<open>B\<close> lists it too.
\<close>

theorem toggleTag_drops_shared_subtag:
  "selectedSubtags (toggleTag tagged_dataset ''A'' tagged_pending) = [''z''] \<and>
   ''y'' \<notin> set (selectedSubtags (toggleTag tagged_dataset ''A'' tagged_pending)) \<and>
   selectedTags (toggleTag tagged_dataset ''A'' tagged_pending) = [''B'']"
  by (simp add: toggleTag_def tagged_dataset_def tagged_pending_def defaultPending_def
      set_new_def set_add_def set_has_def set_delete_def)

section \<open>The subtag facet\<close>

lemma set_fold_tag_subtags:
  "set (fold (\<lambda>tag acc'.
                if array_includes sel (name tag) then
                  (case subtags tag of
                     None \<Rightarrow> acc'
                   | Some ss \<Rightarrow> fold set_add ss acc')
                else acc')
             ts s)
   = set s \<union> {x. \<exists>tag ss. tag \<in> set ts \<and> name tag \<in> set sel \<and> subtags tag = Some ss \<and>
                   x \<in> set ss}"
  by (induction ts arbitrary: s)
     (auto simp: array_includes_def set_fold_set_add split: option.splits)

lemma distinct_fold_tag_subtags:
  "distinct s \<Longrightarrow>
   distinct (fold (\<lambda>tag acc'.
                     if array_includes sel (name tag) then
                       (case subtags tag of
                          None \<Rightarrow> acc'
                        | Some ss \<Rightarrow> fold set_add ss acc')
                     else acc')
                  ts s)"
  by (induction ts arbitrary: s)
     (auto simp: distinct_fold_set_add split: option.splits)

lemma set_fold_problem_subtags:
  "set (fold (\<lambda>problem acc.
                case topicTags problem of
                  None \<Rightarrow> acc
                | Some ts \<Rightarrow>
                    fold (\<lambda>tag acc'.
                            if array_includes sel (name tag) then
                              (case subtags tag of
                                 None \<Rightarrow> acc'
                               | Some ss \<Rightarrow> fold set_add ss acc')
                            else acc')
                         ts acc)
             problems s)
   = set s \<union> (\<Union>problem\<in>set problems. subtagsUnderSelection sel problem)"
  by (induction problems arbitrary: s)
     (auto simp: subtagsUnderSelection_def set_fold_tag_subtags split: option.splits)

lemma distinct_fold_problem_subtags:
  "distinct s \<Longrightarrow>
   distinct (fold (\<lambda>problem acc.
                     case topicTags problem of
                       None \<Rightarrow> acc
                     | Some ts \<Rightarrow>
                         fold (\<lambda>tag acc'.
                                 if array_includes sel (name tag) then
                                   (case subtags tag of
                                      None \<Rightarrow> acc'
                                    | Some ss \<Rightarrow> fold set_add ss acc')
                                 else acc')
                              ts acc)
                  problems s)"
  by (induction problems arbitrary: s)
     (auto simp: distinct_fold_tag_subtags split: option.splits)

lemma sort_distinct_eq: "distinct xs \<Longrightarrow> sort xs = sorted_list_of_set (set xs)"
  by (simp add: sorted_list_of_set_sort_remdups distinct_remdups_id)

text \<open>
  Claim C6. With no tag selected \<^verbatim>\<open>availableSubtags\<close> is empty. Otherwise it is the set of
  all subtags that some problem lists under a tag whose name is selected, each subtag once,
  in ascending lexicographic order.
\<close>

theorem availableSubtags_sorted_union:
  "availableSubtags problems pf =
     (if selectedTags pf = [] then []
      else sorted_list_of_set
             (\<Union>problem\<in>set problems. subtagsUnderSelection (selectedTags pf) problem))"
proof (cases "selectedTags pf = []")
  case True
  then show ?thesis by (simp add: availableSubtags_def set_size_def)
next
  case False
  let ?acc = "fold (\<lambda>problem acc.
                case topicTags problem of
                  None \<Rightarrow> acc
                | Some ts \<Rightarrow>
                    fold (\<lambda>tag acc'.
                            if array_includes (selectedTags pf) (name tag) then
                              (case subtags tag of
                                 None \<Rightarrow> acc'
                               | Some ss \<Rightarrow> fold set_add ss acc')
                            else acc')
                         ts acc)
             problems []"
  have "distinct ?acc"
    by (rule distinct_fold_problem_subtags) simp
  then have "sort ?acc = sorted_list_of_set (set ?acc)"
    by (rule sort_distinct_eq)
  with False show ?thesis
    by (simp add: availableSubtags_def set_size_def Let_def set_fold_problem_subtags)
qed

theorem availableSubtags_sorted_union_witness:
  "availableSubtags tagged_dataset defaultPending = [] \<and>
   availableSubtags tagged_dataset tagged_pending =
     sorted_list_of_set
       (\<Union>problem\<in>set tagged_dataset. subtagsUnderSelection [''A'', ''B''] problem) \<and>
   availableSubtags tagged_dataset tagged_pending = [''x'', ''y'', ''z'']"
proof -
  have "availableSubtags tagged_dataset tagged_pending = [''x'', ''y'', ''z'']"
    by (simp add: availableSubtags_def tagged_dataset_def tagged_pending_def defaultPending_def
        set_size_def set_add_def set_has_def array_includes_def)
  then show ?thesis
    using availableSubtags_sorted_union [of tagged_dataset defaultPending]
      availableSubtags_sorted_union [of tagged_dataset tagged_pending]
    by (simp add: defaultPending_def tagged_pending_def)
qed

section \<open>The stages of the query\<close>

lemma contents_array_alloc: "contents (array_alloc xs h) = xs"
  by (simp add: contents_def array_alloc_def)

lemma contents_array_filter: "contents (array_filter P rh) = filter P (contents rh)"
  by (simp add: array_filter_def contents_array_alloc)

lemma contents_array_spread: "contents (array_spread rh) = contents rh"
  by (simp add: array_spread_def contents_array_alloc)

lemma contents_array_sort: "contents (array_sort cmp rh) = sorted_by cmp (contents rh)"
  by (simp add: array_sort_def contents_def)

lemma contents_initialStore: "contents (problems_ref, initialStore ds) = ds"
  by (simp add: contents_def initialStore_def)

lemma mset_sort_insert: "mset (sort_insert cmp x ys) = add_mset x (mset ys)"
  by (induction ys) auto

lemma mset_sorted_by: "mset (sorted_by cmp xs) = mset xs"
  by (induction xs) (auto simp: sorted_by_def mset_sort_insert)

lemma set_sorted_by: "set (sorted_by cmp xs) = set xs"
  using mset_sorted_by [of cmp xs] by (metis set_mset_mset)

lemma length_sorted_by: "length (sorted_by cmp xs) = length xs"
  using mset_sorted_by [of cmp xs] by (metis size_mset)

lemma sorted_by_Nil: "sorted_by cmp [] = []"
  by (simp add: sorted_by_def)

lemma sorted_by_Cons: "sorted_by cmp (x # xs) = sort_insert cmp x (sorted_by cmp xs)"
  by (simp add: sorted_by_def)

lemma contents_searchStage:
  "contents (searchStage af rh) =
     (if searchTerm af = [] then contents rh
      else filter (\<lambda>problem.
             string_includes (toLowerCase (Title problem)) (toLowerCase (searchTerm af)) \<or>
             string_includes (int_toString (ID problem)) (toLowerCase (searchTerm af)))
           (contents rh))"
  by (simp add: searchStage_def Let_def contents_array_filter)

lemma contents_difficultyStage:
  "contents (difficultyStage af rh) =
     (if applied_difficulty af = ''all'' then contents rh
      else filter (\<lambda>problem. effectiveDifficulty problem = applied_difficulty af) (contents rh))"
  by (simp add: difficultyStage_def contents_array_filter)

lemma tag_test_iff:
  "(case topicTags problem of
      None \<Rightarrow> False
    | Some ts \<Rightarrow> list_ex (\<lambda>tag. array_includes (tags af) (name tag)) ts) = hasSelectedTag af problem"
  by (auto simp: hasSelectedTag_def list_ex_iff array_includes_def split: option.splits)

lemma subtag_test_iff:
  "(case topicTags problem of
      None \<Rightarrow> False
    | Some ts \<Rightarrow>
        list_ex (\<lambda>tag.
          case subtags tag of
            None \<Rightarrow> False
          | Some ss \<Rightarrow> list_ex (\<lambda>subtag. array_includes (applied_subtags af) subtag) ss) ts)
   = hasSelectedSubtag af problem"
proof (cases "topicTags problem")
  case None
  then show ?thesis by (simp add: hasSelectedSubtag_def)
next
  case (Some ts)
  have "(case subtags tag of
            None \<Rightarrow> False
          | Some ss \<Rightarrow> list_ex (\<lambda>subtag. array_includes (applied_subtags af) subtag) ss)
        = (\<exists>ss sub. subtags tag = Some ss \<and> sub \<in> set ss \<and> sub \<in> set (applied_subtags af))"
    for tag :: TopicTag
    by (cases "subtags tag") (auto simp: list_ex_iff array_includes_def)
  with Some show ?thesis
    by (auto simp: hasSelectedSubtag_def list_ex_iff)
qed

lemma contents_tagStage:
  "contents (tagStage af rh) =
     (if tags af = [] then contents rh else filter (hasSelectedTag af) (contents rh))"
  by (simp add: tagStage_def Let_def set_size_def contents_array_filter tag_test_iff)

lemma contents_subtagStage:
  "contents (subtagStage af rh) =
     (if applied_subtags af = [] then contents rh
      else filter (hasSelectedSubtag af) (contents rh))"
  by (simp add: subtagStage_def Let_def set_size_def contents_array_filter subtag_test_iff)

lemma contents_ratingStage:
  "contents (ratingStage af rh) =
     (if js_gt (ratingMin af) (Num 0) \<or> js_lt (ratingMax af) (Num 4000)
      then filter (\<lambda>problem. js_ge (Num (Rating problem)) (ratingMin af) \<and>
                             js_le (Num (Rating problem)) (ratingMax af)) (contents rh)
      else contents rh)"
  by (simp add: ratingStage_def contents_array_filter)

lemma contents_filteredAndSortedProblems_stages:
  "contents (filteredAndSortedProblems lc af rh) =
     sorted_by (compareProblems lc (sortBy af))
       (contents (ratingStage af (subtagStage af (tagStage af
          (difficultyStage af (searchStage af rh))))))"
  by (simp add: filteredAndSortedProblems_def Let_def contents_array_spread contents_array_sort)

lemma contents_stages_matches:
  "contents (ratingStage af (subtagStage af (tagStage af
          (difficultyStage af (searchStage af rh))))) = filter (matches af) (contents rh)"
  unfolding contents_ratingStage contents_subtagStage contents_tagStage
      contents_difficultyStage contents_searchStage
  by (auto simp: matches_def intro!: filter_cong)

lemma contents_filteredAndSortedProblems:
  "contents (filteredAndSortedProblems lc af rh) =
     sorted_by (compareProblems lc (sortBy af)) (filter (matches af) (contents rh))"
  by (simp add: contents_filteredAndSortedProblems_stages contents_stages_matches)

lemma js_gt_cases:
  "js_gt a b \<Longrightarrow> (\<And>x y. a = Num x \<Longrightarrow> b = Num y \<Longrightarrow> y < x \<Longrightarrow> thesis) \<Longrightarrow> thesis"
  by (cases a; cases b) auto

lemma totalPages_Nil: "totalPages [] = 0"
  by (simp add: totalPages_def)

lemma paginatedProblems_Nil: "paginatedProblems [] k = []"
  by (simp add: paginatedProblems_def array_slice_def Let_def)

text \<open>
  Claim C5. When the lower rating bound is greater than the upper one, the evaluation
  returns the empty sequence: the total count is zero, there is no page, and every page
  request yields no item. The model has no failing branch, as the source has none.
\<close>

theorem degenerate_range_yields_nothing:
  assumes "js_gt (ratingMin af) (ratingMax af)"
  shows "contents (filteredAndSortedProblems lc af problems) = [] \<and>
         totalPages (contents (filteredAndSortedProblems lc af problems)) = 0 \<and>
         paginatedProblems (contents (filteredAndSortedProblems lc af problems)) page = []"
proof -
  from assms obtain lo hi where b: "ratingMin af = Num lo" "ratingMax af = Num hi" "hi < lo"
    by (rule js_gt_cases)
  have "\<not> matches af p" for p
    using b by (auto simp: matches_def)
  then have "filter (matches af) (contents problems) = []"
    by simp
  then have "contents (filteredAndSortedProblems lc af problems) = []"
    by (simp add: contents_filteredAndSortedProblems sorted_by_Nil)
  then show ?thesis
    by (simp add: totalPages_Nil paginatedProblems_Nil)
qed

theorem degenerate_range_yields_nothing_witness:
  "js_gt (ratingMin (defaultApplied\<lparr>ratingMin := Num 3000, ratingMax := Num 1000\<rparr>))
         (ratingMax (defaultApplied\<lparr>ratingMin := Num 3000, ratingMax := Num 1000\<rparr>)) \<and>
   contents (filteredAndSortedProblems codeCompare
               (defaultApplied\<lparr>ratingMin := Num 3000, ratingMax := Num 1000\<rparr>)
               (problems_ref, initialStore example_dataset)) = [] \<and>
   totalPages (contents (filteredAndSortedProblems codeCompare
               (defaultApplied\<lparr>ratingMin := Num 3000, ratingMax := Num 1000\<rparr>)
               (problems_ref, initialStore example_dataset))) = 0"
proof -
  have h: "js_gt (ratingMin (defaultApplied\<lparr>ratingMin := Num 3000, ratingMax := Num 1000\<rparr>))
         (ratingMax (defaultApplied\<lparr>ratingMin := Num 3000, ratingMax := Num 1000\<rparr>))"
    by simp
  show ?thesis
    using h degenerate_range_yields_nothing [OF h, of codeCompare
        "(problems_ref, initialStore example_dataset)" 1]
    by blast
qed

text \<open>
  Claim C8. With a non-empty subtag selection the subtag stage keeps exactly the problems
  that have some tag with some subtag in the selection; the selected tags play no part in
  the test. With an empty subtag selection the stage keeps every problem. The final result
  holds the problems that pass the other stages and this test.
\<close>

theorem subtagStage_keeps_any_matching_subtag:
  "contents (subtagStage af filtered) =
     (if applied_subtags af = [] then contents filtered
      else filter (hasSelectedSubtag af) (contents filtered)) \<and>
   set (contents (filteredAndSortedProblems lc af problems)) =
     {p \<in> set (contents problems).
        matches (af\<lparr>applied_subtags := []\<rparr>) p \<and>
        (applied_subtags af = [] \<or> hasSelectedSubtag af p)}"
proof -
  have "matches af p =
       (matches (af\<lparr>applied_subtags := []\<rparr>) p \<and>
        (applied_subtags af = [] \<or> hasSelectedSubtag af p))" for p
    by (auto simp: matches_def hasSelectedTag_def)
  then show ?thesis
    by (auto simp: contents_subtagStage contents_filteredAndSortedProblems set_sorted_by)
qed

theorem subtagStage_keeps_any_matching_subtag_witness:
  "applied_subtags cross_selection \<noteq> [] \<and>
   ''A'' \<notin> set (tags cross_selection) \<and>
   filter (hasSelectedSubtag cross_selection) tagged_dataset = tagged_dataset \<and>
   contents (subtagStage cross_selection (problems_ref, initialStore tagged_dataset))
     = tagged_dataset"
proof -
  have e: "contents (subtagStage cross_selection (problems_ref, initialStore tagged_dataset))
     = tagged_dataset"
    by (simp add: subtagStage_def cross_selection_def defaultApplied_def set_size_def
        array_filter_def array_alloc_def contents_def initialStore_def tagged_dataset_def
        array_includes_def)
  have n: "applied_subtags cross_selection \<noteq> []" "''A'' \<notin> set (tags cross_selection)"
    by (simp_all add: cross_selection_def defaultApplied_def)
  have "contents (subtagStage cross_selection (problems_ref, initialStore tagged_dataset))
     = filter (hasSelectedSubtag cross_selection)
         (contents (problems_ref, initialStore tagged_dataset))"
    using n(1) subtagStage_keeps_any_matching_subtag [of cross_selection
        "(problems_ref, initialStore tagged_dataset)"]
    by simp
  then have "filter (hasSelectedSubtag cross_selection) tagged_dataset = tagged_dataset"
    using e by (simp add: contents_initialStore)
  with e n show ?thesis by blast
qed

text \<open>
  Claim C4, as the code has it. For numeric bounds the rating stage is applied if and only
  if \<open>ratingMin > 0\<close> or \<open>ratingMax < 4000\<close>. When applied it keeps exactly the problems
  whose rating lies in the inclusive interval; otherwise it is skipped and hands on the very
  array it was given. The final result holds the problems that pass the other stages and,
  when the stage is applied, lie in the interval.
\<close>

theorem ratingStage_applied_iff_narrower:
  assumes "ratingMin af = Num lo" and "ratingMax af = Num hi"
  shows "contents (ratingStage af filtered) =
           (if 0 < lo \<or> hi < 4000
            then filter (\<lambda>p. lo \<le> Rating p \<and> Rating p \<le> hi) (contents filtered)
            else contents filtered) \<and>
         (\<not> (0 < lo \<or> hi < 4000) \<longrightarrow> ratingStage af filtered = filtered) \<and>
         set (contents (filteredAndSortedProblems lc af problems)) =
           {p \<in> set (contents problems).
              matches (af\<lparr>ratingMin := Num 0, ratingMax := Num 4000\<rparr>) p \<and>
              (0 < lo \<or> hi < 4000 \<longrightarrow> lo \<le> Rating p \<and> Rating p \<le> hi)}"
proof -
  have "matches af p =
       (matches (af\<lparr>ratingMin := Num 0, ratingMax := Num 4000\<rparr>) p \<and>
        (0 < lo \<or> hi < 4000 \<longrightarrow> lo \<le> Rating p \<and> Rating p \<le> hi))" for p
    using assms by (auto simp: matches_def hasSelectedTag_def hasSelectedSubtag_def)
  then have "set (contents (filteredAndSortedProblems lc af problems)) =
           {p \<in> set (contents problems).
              matches (af\<lparr>ratingMin := Num 0, ratingMax := Num 4000\<rparr>) p \<and>
              (0 < lo \<or> hi < 4000 \<longrightarrow> lo \<le> Rating p \<and> Rating p \<le> hi)}"
    by (auto simp: contents_filteredAndSortedProblems set_sorted_by)
  moreover have "contents (ratingStage af filtered) =
           (if 0 < lo \<or> hi < 4000
            then filter (\<lambda>p. lo \<le> Rating p \<and> Rating p \<le> hi) (contents filtered)
            else contents filtered)"
    using assms by (simp add: contents_ratingStage)
  moreover have "\<not> (0 < lo \<or> hi < 4000) \<longrightarrow> ratingStage af filtered = filtered"
    using assms by (simp add: ratingStage_def)
  ultimately show ?thesis by blast
qed

theorem ratingStage_applied_iff_narrower_witness:
  "ratingMin mid_range = Num 1000 \<and> ratingMax mid_range = Num 2000 \<and>
   contents (ratingStage mid_range (problems_ref, initialStore example_dataset))
     = [two_sum, sum_tree]"
proof -
  have h: "ratingMin mid_range = Num 1000" "ratingMax mid_range = Num 2000"
    by (simp_all add: mid_range_def)
  show ?thesis
    using h ratingStage_applied_iff_narrower [OF h, of
        "(problems_ref, initialStore example_dataset)" codeCompare
        "(problems_ref, initialStore example_dataset)"]
    by (simp add: contents_initialStore example_dataset_def two_sum_def add_problem_def
        sum_tree_def)
qed

text \<open>
  Claim C4 as the specification words it fails: the bounds 0 and 5000 differ from the
  default 0 and 4000, yet the stage is skipped and a problem rated 6000 stays in the
  result.
\<close>

theorem rating_stage_skipped_for_wider_bounds:
  "(ratingMin (defaultApplied\<lparr>ratingMax := Num 5000\<rparr>),
    ratingMax (defaultApplied\<lparr>ratingMax := Num 5000\<rparr>)) \<noteq> (Num 0, Num 4000) \<and>
   \<not> Rating high_rated \<le> 5000 \<and>
   contents (ratingStage (defaultApplied\<lparr>ratingMax := Num 5000\<rparr>)
               (problems_ref, initialStore [high_rated])) = [high_rated] \<and>
   contents (filteredAndSortedProblems codeCompare (defaultApplied\<lparr>ratingMax := Num 5000\<rparr>)
               (problems_ref, initialStore [high_rated])) = [high_rated]"
  by (simp add: contents_filteredAndSortedProblems contents_ratingStage contents_initialStore
      defaultApplied_def high_rated_def matches_def sorted_by_Cons sorted_by_Nil)

section \<open>The search stage\<close>

lemma string_includes_iff_sublist: "string_includes s t \<longleftrightarrow> sublist t s"
  by (induction s) (auto simp: sublist_Cons_right)

lemma isIdChar_iff:
  "isIdChar c \<longleftrightarrow> of_char c = (45::nat) \<or> (48 \<le> (of_char c :: nat) \<and> (of_char c :: nat) \<le> 57)"
proof -
  have "c = CHR ''-'' \<longleftrightarrow> (of_char c :: nat) = of_char CHR ''-''"
    by (simp only: of_char_eq_iff)
  then show ?thesis
    by (simp add: isIdChar_def less_eq_char_def)
qed

lemma isIdChar_digit_char: "d < 10 \<Longrightarrow> isIdChar (digit_char d)"
  by (simp add: isIdChar_iff digit_char_def)

lemma isIdChar_nat_toString: "c \<in> set (nat_toString n) \<Longrightarrow> isIdChar c"
proof (induction n arbitrary: c rule: nat_toString.induct)
  case (1 n)
  show ?case
  proof (cases "n < 10")
    case True
    with "1.prems" show ?thesis
      by (simp add: nat_toString.simps [of n] isIdChar_digit_char)
  next
    case False
    with "1.prems" have "c \<in> set (nat_toString (n div 10)) \<or> c = digit_char (n mod 10)"
      by (auto simp: nat_toString.simps [of n])
    with False "1.IH" show ?thesis
      by (auto simp: isIdChar_digit_char)
  qed
qed

lemma isIdChar_int_toString: "c \<in> set (int_toString i) \<Longrightarrow> isIdChar c"
  by (auto simp: int_toString_def isIdChar_nat_toString split: if_splits)
     (simp add: isIdChar_def)

lemma toLowerCaseChar_fixed_or_letter:
  "toLowerCaseChar c = c \<or> (\<not> isIdChar c \<and> \<not> isIdChar (toLowerCaseChar c))"
  by (auto simp: toLowerCaseChar_def isIdChar_iff less_eq_char_def)

lemma toLowerCase_id: "\<forall>c\<in>set t. toLowerCaseChar c = c \<Longrightarrow> toLowerCase t = t"
  by (simp add: toLowerCase_def map_idI)

lemma sublist_idChars_toLowerCase:
  assumes "\<forall>c\<in>set d. isIdChar c"
  shows "sublist (toLowerCase t) d \<longleftrightarrow> sublist t d"
proof (cases "\<forall>c\<in>set t. toLowerCaseChar c = c")
  case True
  then show ?thesis by (simp add: toLowerCase_id)
next
  case False
  then obtain c where c: "c \<in> set t" "toLowerCaseChar c \<noteq> c"
    by blast
  then have n: "\<not> isIdChar c" "\<not> isIdChar (toLowerCaseChar c)"
    using toLowerCaseChar_fixed_or_letter [of c] by auto
  have "\<not> sublist t d"
    using c(1) n(1) assms set_mono_sublist by fastforce
  moreover have "toLowerCaseChar c \<in> set (toLowerCase t)"
    using c(1) by (simp add: toLowerCase_def)
  then have "\<not> sublist (toLowerCase t) d"
    using n(2) assms set_mono_sublist by fastforce
  ultimately show ?thesis by simp
qed

lemma id_includes_lowered:
  "sublist (toLowerCase t) (int_toString i) \<longleftrightarrow> sublist t (int_toString i)"
  by (simp add: sublist_idChars_toLowerCase isIdChar_int_toString)

lemma toLowerCase_examples:
  "toLowerCase ''sum'' = ''sum''"
  "toLowerCase ''Two Sum'' = ''two sum''"
  "toLowerCase ''Add'' = ''add''"
  "toLowerCase ''Sum Tree'' = ''sum tree''"
  by code_simp+

lemma int_toString_examples:
  "int_toString 1 = ''1''" "int_toString 2 = ''2''" "int_toString 3 = ''3''"
  by code_simp+

lemma matches_search_sum:
  "matches (defaultApplied\<lparr>searchTerm := ''sum''\<rparr>) two_sum"
  "\<not> matches (defaultApplied\<lparr>searchTerm := ''sum''\<rparr>) add_problem"
  "matches (defaultApplied\<lparr>searchTerm := ''sum''\<rparr>) sum_tree"
  by (simp_all add: matches_def defaultApplied_def two_sum_def add_problem_def sum_tree_def
      toLowerCase_examples int_toString_examples)

lemma matches_sortBy: "matches (af\<lparr>sortBy := k\<rparr>) p = matches af p"
  by (simp add: matches_def hasSelectedTag_def hasSelectedSubtag_def)

text \<open>
  Claim C7. With a non-empty search term the search stage keeps exactly the problems whose
  title contains the term when both are put in lower case by \<^verbatim>\<open>toLowerCase\<close>, or whose
  id written in decimal contains the term. On the three example problems the term \<open>sum\<close> keeps the ids 1 and 3,
  and the result sorted by ascending rating is 1, 3.
\<close>

theorem searchStage_title_or_id:
  "contents (searchStage af filtered) =
     (if searchTerm af = [] then contents filtered
      else filter (\<lambda>p. sublist (toLowerCase (searchTerm af)) (toLowerCase (Title p)) \<or>
                        sublist (searchTerm af) (int_toString (ID p)))
             (contents filtered)) \<and>
   map ID (contents (searchStage (defaultApplied\<lparr>searchTerm := ''sum''\<rparr>)
                       (problems_ref, initialStore example_dataset))) = [1, 3] \<and>
   map ID (contents (filteredAndSortedProblems lc
                       (defaultApplied\<lparr>searchTerm := ''sum'', sortBy := ''rating-asc''\<rparr>)
                       (problems_ref, initialStore example_dataset))) = [1, 3]"
proof -
  have general: "contents (searchStage af filtered) =
     (if searchTerm af = [] then contents filtered
      else filter (\<lambda>p. sublist (toLowerCase (searchTerm af)) (toLowerCase (Title p)) \<or>
                        sublist (searchTerm af) (int_toString (ID p)))
             (contents filtered))"
    by (simp add: contents_searchStage string_includes_iff_sublist id_includes_lowered)
  have stage: "map ID (contents (searchStage (defaultApplied\<lparr>searchTerm := ''sum''\<rparr>)
                       (problems_ref, initialStore example_dataset))) = [1, 3]"
    by (simp add: contents_searchStage contents_initialStore example_dataset_def
        defaultApplied_def two_sum_def add_problem_def sum_tree_def
        toLowerCase_examples int_toString_examples)
  have "filter (matches (defaultApplied\<lparr>searchTerm := ''sum'', sortBy := ''rating-asc''\<rparr>))
          example_dataset = [two_sum, sum_tree]"
    by (simp only: matches_sortBy matches_search_sum example_dataset_def filter.simps if_True
        if_False)
  then have "contents (filteredAndSortedProblems lc
                       (defaultApplied\<lparr>searchTerm := ''sum'', sortBy := ''rating-asc''\<rparr>)
                       (problems_ref, initialStore example_dataset)) = [two_sum, sum_tree]"
    by (simp add: contents_filteredAndSortedProblems contents_initialStore sorted_by_Cons
        sorted_by_Nil compareProblems_def two_sum_def sum_tree_def)
  then have "map ID (contents (filteredAndSortedProblems lc
                       (defaultApplied\<lparr>searchTerm := ''sum'', sortBy := ''rating-asc''\<rparr>)
                       (problems_ref, initialStore example_dataset))) = [1, 3]"
    by (simp add: two_sum_def sum_tree_def)
  with general stage show ?thesis by blast
qed

theorem searchStage_title_or_id_witness:
  "searchTerm (defaultApplied\<lparr>searchTerm := ''3''\<rparr>) \<noteq> [] \<and>
   filter (\<lambda>p. sublist (toLowerCase ''3'') (toLowerCase (Title p)) \<or>
                 sublist ''3'' (int_toString (ID p))) example_dataset = [sum_tree] \<and>
   searchTerm (defaultApplied\<lparr>searchTerm := accented_term\<rparr>) \<noteq> [] \<and>
   contents (searchStage (defaultApplied\<lparr>searchTerm := accented_term\<rparr>)
               (problems_ref, initialStore [accented])) = [accented] \<and>
   filter (\<lambda>p. sublist (toLowerCase accented_term) (toLowerCase (Title p)) \<or>
                 sublist accented_term (int_toString (ID p))) [accented] = [accented]"
proof -
  have l: "toLowerCase accented_term = accented_term"
    "toLowerCase (Title accented) = CHR 0xE9 # ''cole''"
    "int_toString (ID accented) = ''5''"
    unfolding accented_term_def accented_def by code_simp+
  have a: "contents (searchStage (defaultApplied\<lparr>searchTerm := accented_term\<rparr>)
               (problems_ref, initialStore [accented])) = [accented]"
    by (simp add: searchStage_def array_filter_def array_alloc_def contents_def
        initialStore_def l)
       (simp add: accented_term_def defaultApplied_def)
  have n: "searchTerm (defaultApplied\<lparr>searchTerm := accented_term\<rparr>) \<noteq> []"
    by (simp add: accented_term_def)
  have f: "filter (\<lambda>p. sublist (toLowerCase accented_term) (toLowerCase (Title p)) \<or>
                 sublist accented_term (int_toString (ID p))) [accented] = [accented]"
    using a n searchStage_title_or_id [of "defaultApplied\<lparr>searchTerm := accented_term\<rparr>"
        "(problems_ref, initialStore [accented])" codeCompare]
    by (simp add: contents_initialStore)
  have "toLowerCase ''3'' = ''3''"
    by code_simp
  then have "contents (searchStage (defaultApplied\<lparr>searchTerm := ''3''\<rparr>)
                 (problems_ref, initialStore example_dataset)) = [sum_tree]"
    by (simp add: searchStage_def defaultApplied_def array_filter_def array_alloc_def
        contents_def initialStore_def example_dataset_def two_sum_def add_problem_def
        sum_tree_def toLowerCase_examples int_toString_examples)
  then have "filter (\<lambda>p. sublist (toLowerCase ''3'') (toLowerCase (Title p)) \<or>
                 sublist ''3'' (int_toString (ID p))) example_dataset = [sum_tree]"
    using searchStage_title_or_id [of "defaultApplied\<lparr>searchTerm := ''3''\<rparr>"
        "(problems_ref, initialStore example_dataset)" codeCompare]
    by (simp add: contents_initialStore)
  with a n f show ?thesis by simp
qed

section \<open>The dataset array after an evaluation\<close>

lemma keeps_refl: "allocated r0 rh \<Longrightarrow> keeps r0 rh rh"
  by (simp add: keeps_def)

lemma keeps_trans: "keeps r0 rh rh' \<Longrightarrow> keeps r0 rh' rh'' \<Longrightarrow> keeps r0 rh rh''"
  by (auto simp: keeps_def)

lemma keeps_array_filter: "allocated r0 rh \<Longrightarrow> keeps r0 rh (array_filter P rh)"
  by (auto simp: keeps_def allocated_def array_filter_def array_alloc_def)

lemma keeps_searchStage: "allocated r0 rh \<Longrightarrow> keeps r0 rh (searchStage af rh)"
  by (simp add: searchStage_def Let_def keeps_array_filter keeps_refl)

lemma keeps_difficultyStage: "allocated r0 rh \<Longrightarrow> keeps r0 rh (difficultyStage af rh)"
  by (simp add: difficultyStage_def keeps_array_filter keeps_refl)

lemma keeps_tagStage: "allocated r0 rh \<Longrightarrow> keeps r0 rh (tagStage af rh)"
  by (simp add: tagStage_def Let_def keeps_array_filter keeps_refl)

lemma keeps_subtagStage: "allocated r0 rh \<Longrightarrow> keeps r0 rh (subtagStage af rh)"
  by (simp add: subtagStage_def Let_def keeps_array_filter keeps_refl)

lemma keeps_ratingStage: "allocated r0 rh \<Longrightarrow> keeps r0 rh (ratingStage af rh)"
  by (simp add: ratingStage_def keeps_array_filter keeps_refl)

lemma keeps_allocated: "keeps r0 rh rh' \<Longrightarrow> allocated r0 rh'"
  by (simp add: keeps_def)

lemma keeps_stages:
  assumes "allocated r0 rh"
  shows "keeps r0 rh (ratingStage af (subtagStage af (tagStage af
           (difficultyStage af (searchStage af rh)))))"
proof -
  have 1: "keeps r0 rh (searchStage af rh)"
    using assms by (rule keeps_searchStage)
  have 2: "keeps r0 rh (difficultyStage af (searchStage af rh))"
    using 1 keeps_difficultyStage [OF keeps_allocated [OF 1]] by (rule keeps_trans)
  have 3: "keeps r0 rh (tagStage af (difficultyStage af (searchStage af rh)))"
    using 2 keeps_tagStage [OF keeps_allocated [OF 2]] by (rule keeps_trans)
  have 4: "keeps r0 rh (subtagStage af (tagStage af (difficultyStage af (searchStage af rh))))"
    using 3 keeps_subtagStage [OF keeps_allocated [OF 3]] by (rule keeps_trans)
  show ?thesis
    using 4 keeps_ratingStage [OF keeps_allocated [OF 4]] by (rule keeps_trans)
qed

lemma stages_inactive:
  "\<not> hasActiveFilters af \<Longrightarrow>
   ratingStage af (subtagStage af (tagStage af (difficultyStage af (searchStage af rh)))) = rh"
  by (simp add: hasActiveFilters_def searchStage_def difficultyStage_def tagStage_def
      subtagStage_def ratingStage_def)

lemma array_filter_neq: "allocated r0 rh \<Longrightarrow> fst (array_filter P rh) \<noteq> r0"
  by (auto simp: allocated_def array_filter_def array_alloc_def)

lemma stages_active_fresh:
  assumes "allocated r0 rh" and "hasActiveFilters af"
  shows "fst (ratingStage af (subtagStage af (tagStage af
           (difficultyStage af (searchStage af rh))))) \<noteq> r0"
proof -
  have 1: "keeps r0 rh (searchStage af rh)"
    using assms(1) by (rule keeps_searchStage)
  have 2: "keeps r0 (searchStage af rh) (difficultyStage af (searchStage af rh))"
    using keeps_difficultyStage [OF keeps_allocated [OF 1]] .
  have 3: "keeps r0 (difficultyStage af (searchStage af rh))
             (tagStage af (difficultyStage af (searchStage af rh)))"
    using keeps_tagStage [OF keeps_allocated [OF 2]] .
  have 4: "keeps r0 (tagStage af (difficultyStage af (searchStage af rh)))
             (subtagStage af (tagStage af (difficultyStage af (searchStage af rh))))"
    using keeps_subtagStage [OF keeps_allocated [OF 3]] .
  have 5: "keeps r0 (subtagStage af (tagStage af (difficultyStage af (searchStage af rh))))
             (ratingStage af (subtagStage af (tagStage af (difficultyStage af (searchStage af rh)))))"
    using keeps_ratingStage [OF keeps_allocated [OF 4]] .
  have f1: "searchTerm af \<noteq> [] \<Longrightarrow> fst (searchStage af rh) \<noteq> r0"
    using assms(1) by (simp add: searchStage_def Let_def array_filter_neq)
  have f2: "applied_difficulty af \<noteq> ''all'' \<Longrightarrow>
            fst (difficultyStage af (searchStage af rh)) \<noteq> r0"
    using keeps_allocated [OF 1] by (simp add: difficultyStage_def array_filter_neq)
  have f3: "set_size (tags af) > 0 \<Longrightarrow>
            fst (tagStage af (difficultyStage af (searchStage af rh))) \<noteq> r0"
    using keeps_allocated [OF 2] by (simp add: tagStage_def Let_def array_filter_neq)
  have f4: "set_size (applied_subtags af) > 0 \<Longrightarrow>
            fst (subtagStage af (tagStage af (difficultyStage af (searchStage af rh)))) \<noteq> r0"
    using keeps_allocated [OF 3] by (simp add: subtagStage_def Let_def array_filter_neq)
  have f5: "js_gt (ratingMin af) (Num 0) \<or> js_lt (ratingMax af) (Num 4000) \<Longrightarrow>
            fst (ratingStage af (subtagStage af (tagStage af
              (difficultyStage af (searchStage af rh))))) \<noteq> r0"
    using keeps_allocated [OF 4] by (simp add: ratingStage_def array_filter_neq)
  have step: "keeps r0 a b \<Longrightarrow> fst a \<noteq> r0 \<Longrightarrow> fst b \<noteq> r0" for a b
    by (auto simp: keeps_def)
  from assms(2) consider "searchTerm af \<noteq> []" | "applied_difficulty af \<noteq> ''all''"
    | "set_size (tags af) > 0" | "set_size (applied_subtags af) > 0"
    | "js_gt (ratingMin af) (Num 0) \<or> js_lt (ratingMax af) (Num 4000)"
    by (auto simp: hasActiveFilters_def)
  then show ?thesis
  proof cases
    case 1
    from f1 [OF 1] show ?thesis
      using step [OF 2] step [OF 3] step [OF 4] step [OF 5] by blast
  next
    case 2
    from f2 [OF 2] show ?thesis
      using step [OF 3] step [OF 4] step [OF 5] by blast
  next
    case 3
    from f3 [OF 3] show ?thesis
      using step [OF 4] step [OF 5] by blast
  next
    case 4
    from f4 [OF 4] show ?thesis
      using step [OF 5] by blast
  next
    case 5
    from f5 [OF 5] show ?thesis .
  qed
qed

lemma dataset_after_sort_spread:
  assumes "keeps r0 rh rh'"
  shows "arrays (snd (array_spread (array_sort cmp rh'))) r0 =
           (if fst rh' = r0 then sorted_by cmp (arrays (snd rh) r0) else arrays (snd rh) r0) \<and>
         r0 < fresh (snd (array_spread (array_sort cmp rh')))"
  using assms
  by (auto simp: keeps_def allocated_def array_spread_def array_alloc_def array_sort_def
      contents_def)

lemma dataset_after_evaluation:
  assumes "fst problems < fresh (snd problems)"
  shows "arrays (snd (filteredAndSortedProblems lc af problems)) (fst problems) =
           (if hasActiveFilters af then contents problems
            else sorted_by (compareProblems lc (sortBy af)) (contents problems)) \<and>
         fst problems < fresh (snd (filteredAndSortedProblems lc af problems))"
proof -
  have a: "allocated (fst problems) problems"
    using assms by (simp add: allocated_def)
  let ?s = "ratingStage af (subtagStage af (tagStage af
           (difficultyStage af (searchStage af problems))))"
  have k: "keeps (fst problems) problems ?s"
    using a by (rule keeps_stages)
  have e: "filteredAndSortedProblems lc af problems =
        array_spread (array_sort (compareProblems lc (sortBy af)) ?s)"
    by (simp add: filteredAndSortedProblems_def Let_def)
  show ?thesis
  proof (cases "hasActiveFilters af")
    case True
    then have "fst ?s \<noteq> fst problems"
      using a stages_active_fresh by blast
    then show ?thesis
      using dataset_after_sort_spread [OF k, of "compareProblems lc (sortBy af)"] True
      by (simp add: e contents_def)
  next
    case False
    then have "?s = problems"
      by (rule stages_inactive)
    then show ?thesis
      using dataset_after_sort_spread [OF k, of "compareProblems lc (sortBy af)"] False
      by (simp add: e contents_def)
  qed
qed

text \<open>
  Claim C3 fails on the code. With no active filter the array in hand is the dataset array
  itself, and the sort reorders it in place: the three example problems, stored in the
  order 1, 2, 3, stand in the order 1, 3, 2 after one evaluation with the default filters.
  With an active filter the dataset array is left as it is
  (lemma \<open>dataset_after_evaluation\<close>).
\<close>

theorem evaluation_reorders_dataset:
  "arrays (initialStore example_dataset) problems_ref = [two_sum, add_problem, sum_tree] \<and>
   arrays (snd (filteredAndSortedProblems codeCompare defaultApplied
                  (problems_ref, initialStore example_dataset))) problems_ref
     = [two_sum, sum_tree, add_problem]"
proof -
  have "\<not> hasActiveFilters defaultApplied"
    by (simp add: hasActiveFilters_def defaultApplied_def set_size_def)
  moreover have "sorted_by (compareProblems codeCompare ''rating-asc'') example_dataset
      = [two_sum, sum_tree, add_problem]"
    by (simp add: sorted_by_Cons sorted_by_Nil compareProblems_def example_dataset_def
        two_sum_def add_problem_def sum_tree_def)
  moreover have "sortBy defaultApplied = ''rating-asc''"
    by (simp add: defaultApplied_def)
  ultimately have "arrays (snd (filteredAndSortedProblems codeCompare defaultApplied
                  (problems_ref, initialStore example_dataset))) problems_ref
     = [two_sum, sum_tree, add_problem]"
    using dataset_after_evaluation [of "(problems_ref, initialStore example_dataset)"
        codeCompare defaultApplied]
    by (simp add: contents_initialStore) (simp add: initialStore_def)
  moreover have "arrays (initialStore example_dataset) problems_ref
     = [two_sum, add_problem, sum_tree]"
    by (simp add: initialStore_def example_dataset_def)
  ultimately show ?thesis by blast
qed

lemma parseInt_abc: "parseInt ''abc'' = NaN"
  by (simp add: parseInt_def isWhiteSpace_def isDigitOf_def digitValue_def)

lemma parseInt_3000: "parseInt ''3000'' = Num 3000"
  by (simp add: parseInt_def isWhiteSpace_def isDigitOf_def digitValue_def digitsValue_def)

text \<open>
  Claim C2 fails on the code. Only an empty bound falls back to its default. The pending
  lower bound \<open>abc\<close> is applied as \<^verbatim>\<open>NaN\<close>; with the upper bound 3000 the rating stage
  then rejects every problem, while the lower bound 0 would keep all three.
\<close>

theorem unparseable_bound_becomes_NaN:
  "ratingMin (newFilters unsaved_bounds) = NaN \<and>
   ratingMax (newFilters unsaved_bounds) = Num 3000 \<and>
   contents (filteredAndSortedProblems codeCompare (newFilters unsaved_bounds)
               (problems_ref, initialStore example_dataset)) = [] \<and>
   contents (filteredAndSortedProblems codeCompare
               ((newFilters unsaved_bounds)\<lparr>ratingMin := Num 0\<rparr>)
               (problems_ref, initialStore example_dataset))
     = [two_sum, sum_tree, add_problem]"
proof -
  have b: "ratingMin (newFilters unsaved_bounds) = NaN"
    "ratingMax (newFilters unsaved_bounds) = Num 3000"
    by (simp_all add: newFilters_def unsaved_bounds_def defaultPending_def parseInt_abc
        parseInt_3000)
  have "\<not> matches (newFilters unsaved_bounds) p" for p
    by (simp add: matches_def b)
  then have e: "contents (filteredAndSortedProblems codeCompare (newFilters unsaved_bounds)
               (problems_ref, initialStore example_dataset)) = []"
    by (simp add: contents_filteredAndSortedProblems sorted_by_Nil)
  have "contents (filteredAndSortedProblems codeCompare
               ((newFilters unsaved_bounds)\<lparr>ratingMin := Num 0\<rparr>)
               (problems_ref, initialStore example_dataset))
     = [two_sum, sum_tree, add_problem]"
    by (simp add: contents_filteredAndSortedProblems contents_initialStore matches_def
        newFilters_def unsaved_bounds_def defaultPending_def parseInt_3000 set_new_def
        example_dataset_def two_sum_def add_problem_def sum_tree_def
        sorted_by_Cons sorted_by_Nil compareProblems_def)
  with b e show ?thesis by blast
qed

section \<open>Pages\<close>

lemma totalPages_div: "totalPages fs = (int (length fs) + 49) div 50"
proof -
  have "\<lceil>real (length fs) / real_of_int 50\<rceil> = - (- int (length fs) div 50)"
    using ceiling_divide_eq_div [of "int (length fs)" 50] by simp
  then show ?thesis
    by (simp add: totalPages_def pageSize_def)
qed

lemma totalPages_nonneg: "0 \<le> totalPages fs"
  by (simp add: totalPages_div)

lemma paginatedProblems_take_drop:
  "1 \<le> k \<Longrightarrow> paginatedProblems fs k = take 50 (drop (nat ((k - 1) * 50)) fs)"
proof -
  let ?start = "(k - 1) * 50"
  assume "1 \<le> k"
  then have s: "0 \<le> ?start" by simp
  show ?thesis
  proof (cases "?start + 50 \<le> int (length fs)")
    case True
    with s show ?thesis
      by (simp add: paginatedProblems_def array_slice_def Let_def pageSize_def min_def)
  next
    case False
    then have "length (drop (nat ?start) fs) \<le> 50"
      using s by simp
    then have "take 50 (drop (nat ?start) fs) = drop (nat ?start) fs"
      by (rule take_all)
    moreover have "paginatedProblems fs k = drop (nat ?start) fs"
      using False s
      by (simp add: paginatedProblems_def array_slice_def Let_def pageSize_def min_def
          nat_diff_distrib)
    ultimately show ?thesis by simp
  qed
qed

lemma length_paginatedProblems: "length (paginatedProblems fs k) \<le> 50"
  by (auto simp: paginatedProblems_def array_slice_def Let_def pageSize_def)

lemma concat_pages:
  "concat (map (\<lambda>k. paginatedProblems fs (int k)) [1..<Suc n]) = take (50 * n) fs"
proof (induction n)
  case 0
  then show ?case by simp
next
  case (Suc n)
  have "paginatedProblems fs (int (Suc n)) = take 50 (drop (50 * n) fs)"
    by (simp add: paginatedProblems_take_drop nat_mult_distrib mult.commute)
  moreover have "take (50 * n) fs @ take 50 (drop (50 * n) fs) = take (50 * Suc n) fs"
    by (simp add: take_add [symmetric] add.commute)
  ultimately show ?case
    using Suc.IH by simp
qed

lemma concat_all_pages:
  "concat (map (\<lambda>k. paginatedProblems fs (int k)) [1..<Suc (nat (totalPages fs))]) = fs"
proof -
  have "length fs \<le> 50 * nat (totalPages fs)"
    by (simp add: totalPages_div)
  then have "take (50 * nat (totalPages fs)) fs = fs"
    by (rule take_all)
  with concat_pages [of fs "nat (totalPages fs)"] show ?thesis
    by (simp only:)
qed

lemma full_page:
  assumes "1 \<le> k" and "k < totalPages fs"
  shows "length (paginatedProblems fs k) = 50"
proof -
  have "k * 50 \<le> int (length fs)"
    using assms(2) by (simp add: totalPages_div)
  moreover have "(k - 1) * 50 = k * 50 - 50"
    by (simp add: algebra_simps)
  ultimately have "nat ((k - 1) * 50) + 50 \<le> length fs"
    using assms(1) by simp
  then show ?thesis
    using assms(1) by (simp add: paginatedProblems_take_drop)
qed

lemma last_page_nonempty:
  assumes "1 \<le> totalPages fs"
  shows "paginatedProblems fs (totalPages fs) \<noteq> []"
proof -
  have "(totalPages fs - 1) * 50 < int (length fs)"
    by (simp add: totalPages_div)
  then have "nat ((totalPages fs - 1) * 50) < length fs"
    using assms by (simp add: nat_less_iff)
  then show ?thesis
    using assms by (simp add: paginatedProblems_take_drop)
qed

text \<open>
  Claim C9. Every page of the sorted filtered sequence has at most 50 items; every page
  before the last has exactly 50 and the last is not empty; the pages 1 to
  \<open>totalPages\<close> put one after the other are the whole sequence, so their lengths add up
  to the total count; and \<open>totalPages\<close> is the total count divided by 50, rounded up.
\<close>

theorem pagination_covers_result:
  "let fs = contents (filteredAndSortedProblems lc af problems); n = totalPages fs in
     (\<forall>k. length (paginatedProblems fs k) \<le> 50) \<and>
     (\<forall>k. 1 \<le> k \<and> k < n \<longrightarrow> length (paginatedProblems fs k) = 50) \<and>
     (1 \<le> n \<longrightarrow> paginatedProblems fs n \<noteq> []) \<and>
     concat (map (\<lambda>k. paginatedProblems fs (int k)) [1..<Suc (nat n)]) = fs \<and>
     sum_list (map (\<lambda>k. length (paginatedProblems fs (int k))) [1..<Suc (nat n)]) = length fs \<and>
     n = \<lceil>real (length fs) / 50\<rceil> \<and>
     mset fs = filter_mset (matches af) (mset (contents problems))"
proof -
  let ?fs = "contents (filteredAndSortedProblems lc af problems)"
  have "length (concat (map (\<lambda>k. paginatedProblems ?fs (int k)) [1..<Suc (nat (totalPages ?fs))]))
        = length ?fs"
    by (simp only: concat_all_pages)
  then have s: "sum_list (map (\<lambda>k. length (paginatedProblems ?fs (int k)))
                  [1..<Suc (nat (totalPages ?fs))]) = length ?fs"
    by (simp only: length_concat map_map o_def)
  have m: "mset ?fs = filter_mset (matches af) (mset (contents problems))"
    by (simp add: contents_filteredAndSortedProblems mset_sorted_by)
  have c: "totalPages ?fs = \<lceil>real (length ?fs) / 50\<rceil>"
    by (simp add: totalPages_def pageSize_def)
  show ?thesis
    unfolding Let_def
    using s m c length_paginatedProblems full_page last_page_nonempty concat_all_pages
    by blast
qed

lemma matches_defaultApplied: "matches defaultApplied p"
  by (simp add: matches_def defaultApplied_def)

lemma length_default_result:
  "length (contents (filteredAndSortedProblems lc defaultApplied (problems_ref, initialStore ds)))
   = length ds"
  by (simp add: contents_filteredAndSortedProblems length_sorted_by matches_defaultApplied
      contents_initialStore)

theorem pagination_covers_result_witness:
  "(1::int) \<le> 2 \<and>
   2 < totalPages (contents (filteredAndSortedProblems codeCompare defaultApplied
                      (problems_ref, initialStore many_problems))) \<and>
   length (paginatedProblems (contents (filteredAndSortedProblems codeCompare defaultApplied
                      (problems_ref, initialStore many_problems))) 2) = 50 \<and>
   totalPages (contents (filteredAndSortedProblems codeCompare defaultApplied
                      (problems_ref, initialStore many_problems))) = 3"
proof -
  have t: "totalPages (contents (filteredAndSortedProblems codeCompare defaultApplied
                      (problems_ref, initialStore many_problems))) = 3"
    by (simp add: totalPages_div length_default_result many_problems_def)
  show ?thesis
    using t pagination_covers_result [of codeCompare defaultApplied
        "(problems_ref, initialStore many_problems)"]
    by (simp add: Let_def)
qed

section \<open>The page number\<close>

lemma recompute_fields:
  "currentPage (recompute lc s) = currentPage s"
  "appliedFilters (recompute lc s) = appliedFilters s"
  "pendingFilters (recompute lc s) = pendingFilters s"
  by (simp_all add: recompute_def Let_def)

lemma memo_recompute:
  "arrays (store (recompute lc s)) (memoized (recompute lc s)) =
     sorted_by (compareProblems lc (sortBy (appliedFilters s)))
       (filter (matches (appliedFilters s)) (arrays (store s) problems_ref))"
  using contents_filteredAndSortedProblems [of lc "appliedFilters s" "(problems_ref, store s)"]
  by (simp add: recompute_def Let_def contents_def)

lemma dataset_recompute:
  assumes "problems_ref < fresh (store s)"
  shows "mset (arrays (store (recompute lc s)) problems_ref) = mset (arrays (store s) problems_ref)"
    and "problems_ref < fresh (store (recompute lc s))"
  using assms dataset_after_evaluation [of "(problems_ref, store s)" lc "appliedFilters s"]
  by (auto simp: recompute_def Let_def contents_def mset_sorted_by)

lemma consistent_recompute:
  assumes "problems_ref < fresh (store s)"
    and "mset (arrays (store s) problems_ref) = mset dataset"
  shows "consistent dataset (recompute lc s)"
  using assms dataset_recompute [OF assms(1), of lc]
  by (simp add: consistent_def memo_recompute mset_sorted_by recompute_fields)

lemma pageInRange_first: "currentPage s = 1 \<Longrightarrow> pageInRange s"
  using totalPages_nonneg [of "arrays (store s) (memoized s)"]
  by (auto simp: pageInRange_def totalPagesOf_def)

lemma totalPagesOf_recompute_page:
  "totalPagesOf (recompute lc (s\<lparr>currentPage := k\<rparr>)) = totalPagesOf (recompute lc s)"
  by (simp add: totalPagesOf_def recompute_def Let_def)

lemma consistent_initialState: "consistent dataset (initialState lc dataset)"
  unfolding initialState_def
  by (rule consistent_recompute) (simp_all add: initialStore_def problems_ref_def)

lemma consistent_applyFilters: "consistent dataset s \<Longrightarrow> consistent dataset (applyFilters lc s)"
  unfolding applyFilters_def
  by (rule consistent_recompute) (simp_all add: consistent_def)

lemma consistent_clearAllFilters:
  "consistent dataset s \<Longrightarrow> consistent dataset (clearAllFilters lc s)"
  unfolding clearAllFilters_def
  by (rule consistent_recompute) (simp_all add: consistent_def)

lemma consistent_removeAppliedFilter:
  "consistent dataset s \<Longrightarrow> consistent dataset (removeAppliedFilter lc type v s)"
  unfolding removeAppliedFilter_def Let_def case_prod_beta
  by (rule consistent_recompute) (simp_all add: consistent_def)

lemma reachable_consistent: "reachable lc dataset s \<Longrightarrow> consistent dataset s"
proof (induction rule: reachable.induct)
  case reach_initial
  show ?case by (rule consistent_initialState)
next
  case (reach_apply s)
  then show ?case by (simp add: consistent_applyFilters)
next
  case (reach_clear s)
  then show ?case by (simp add: consistent_clearAllFilters)
next
  case (reach_remove s type v)
  then show ?case by (simp add: consistent_removeAppliedFilter)
next
  case (reach_previous s)
  then show ?case by (simp add: consistent_def previousPage_def)
next
  case (reach_next s)
  then show ?case by (simp add: consistent_def nextPage_def)
qed (simp_all add: consistent_def)

lemma currentPage_applyFilters: "currentPage (applyFilters lc s) = 1"
  by (simp add: applyFilters_def recompute_fields)

lemma currentPage_clearAllFilters: "currentPage (clearAllFilters lc s) = 1"
  by (simp add: clearAllFilters_def recompute_fields)

lemma currentPage_removeAppliedFilter: "currentPage (removeAppliedFilter lc type v s) = 1"
  by (simp add: removeAppliedFilter_def Let_def case_prod_beta recompute_fields)

lemma currentPage_initialState: "currentPage (initialState lc dataset) = 1"
  by (simp add: initialState_def recompute_fields)

lemma reachable_pageInRange: "reachable lc dataset s \<Longrightarrow> pageInRange s"
proof (induction rule: reachable.induct)
  case reach_initial
  show ?case by (rule pageInRange_first) (rule currentPage_initialState)
next
  case (reach_apply s)
  show ?case by (rule pageInRange_first) (rule currentPage_applyFilters)
next
  case (reach_clear s)
  show ?case by (rule pageInRange_first) (rule currentPage_clearAllFilters)
next
  case (reach_remove s type v)
  show ?case by (rule pageInRange_first) (rule currentPage_removeAppliedFilter)
next
  case (reach_previous s)
  then show ?case
    by (auto simp: pageInRange_def previousPage_def totalPagesOf_def)
next
  case (reach_next s)
  then show ?case
    by (auto simp: pageInRange_def nextPage_def totalPagesOf_def)
qed (simp_all add: pageInRange_def totalPagesOf_def)

lemma totalPages_mset: "mset xs = mset ys \<Longrightarrow> totalPages xs = totalPages ys"
  using mset_eq_length [of xs ys] by (simp add: totalPages_def)

lemma consistent_totalPagesOf:
  assumes "consistent dataset s"
  shows "totalPagesOf s = totalPages (filter (matches (appliedFilters s)) dataset)"
proof -
  from assms have "mset (arrays (store s) (memoized s))
      = mset (filter (matches (appliedFilters s)) dataset)"
    by (simp add: consistent_def)
  then show ?thesis
    unfolding totalPagesOf_def by (rule totalPages_mset)
qed

text \<open>
  Claim C10. In every state that the handlers reach from the initial state, the page number
  is 1 when the applied filters match no problem, and lies between 1 and \<open>totalPages\<close>
  otherwise, where \<open>totalPages\<close> is the page count of the problems of the dataset that
  match the applied filters. Applying the pending filters sets the page number to 1.
\<close>

theorem page_number_in_range:
  assumes "reachable lc dataset s"
  shows "(totalPagesOf s = 0 \<longrightarrow> currentPage s = 1) \<and>
         (0 < totalPagesOf s \<longrightarrow> 1 \<le> currentPage s \<and> currentPage s \<le> totalPagesOf s) \<and>
         totalPagesOf s = totalPages (filter (matches (appliedFilters s)) dataset) \<and>
         currentPage (applyFilters lc s) = 1 \<and>
         appliedFilters (applyFilters lc s) = newFilters (pendingFilters s)"
proof -
  have "pageInRange s"
    using assms by (rule reachable_pageInRange)
  moreover have "totalPagesOf s = totalPages (filter (matches (appliedFilters s)) dataset)"
    using reachable_consistent [OF assms] by (rule consistent_totalPagesOf)
  moreover have "appliedFilters (applyFilters lc s) = newFilters (pendingFilters s)"
    by (simp add: applyFilters_def recompute_fields)
  ultimately show ?thesis
    by (simp add: pageInRange_def currentPage_applyFilters)
qed

lemma totalPagesOf_initialState:
  "totalPagesOf (initialState lc ds) = totalPages ds"
proof -
  have "filter (matches defaultApplied) ds = ds"
    by (simp add: matches_defaultApplied)
  then show ?thesis
    using consistent_totalPagesOf [OF consistent_initialState, of lc ds]
    by (simp add: initialState_def recompute_fields)
qed

theorem page_number_in_range_witness:
  "reachable codeCompare many_problems (nextPage (initialState codeCompare many_problems)) \<and>
   totalPagesOf (nextPage (initialState codeCompare many_problems)) = 3 \<and>
   currentPage (nextPage (initialState codeCompare many_problems)) = 2 \<and>
   1 \<le> currentPage (nextPage (initialState codeCompare many_problems)) \<and>
   currentPage (nextPage (initialState codeCompare many_problems))
     \<le> totalPagesOf (nextPage (initialState codeCompare many_problems))"
proof -
  have t: "totalPagesOf (initialState codeCompare many_problems) = 3"
    by (simp add: totalPagesOf_initialState totalPages_div many_problems_def)
  then have r: "reachable codeCompare many_problems
                 (nextPage (initialState codeCompare many_problems))"
    by (intro reach_next reach_initial) simp
  have t': "totalPagesOf (nextPage (initialState codeCompare many_problems)) = 3"
    using t by (simp add: nextPage_def totalPagesOf_def)
  have c: "currentPage (nextPage (initialState codeCompare many_problems)) = 2"
    using t by (simp add: nextPage_def currentPage_initialState)
  show ?thesis
    using r t' c page_number_in_range [OF r] by simp
qed

end
